theory Spec2Isabelle
  imports Main "HOL-Library.Multiset" "HOL-Library.Sublist"
begin

section \<open>JavaScript values\<close>

text \<open>
  The values that flow through \<^verbatim>\<open>server.js\<close>. Objects, arrays and functions carry a
  reference (the \<open>nat\<close>): two values are the same JavaScript object exactly when they carry the
  same reference, so that HOL equality on values is the SameValueZero comparison that
  \<^verbatim>\<open>new Set(...)\<close> uses (primitives by value, \<open>NaN\<close> equal to itself, objects by identity).
  Numbers are integers or \<open>NaN\<close>: the program only tests numbers for truthiness and type.
  An object is its list of own enumerable properties in enumeration order; their names are
  distinct, as they are in a JavaScript object. A function is modelled by its name and by the
  values that the iterable it returns yields when it is called without arguments, which is how
  the program uses \<^verbatim>\<open>keys()\<close> and \<^verbatim>\<open>values()\<close>. Getters, proxies and functions that
  throw are outside the model.
\<close>

datatype jsval =
    JUndefined
  | JNull
  | JBool bool
  | JNum int
  | JNaN
  | JStr string
  | JArr nat "jsval list"
  | JObj nat "(string \<times> jsval) list"
  | JFun nat string "jsval list"

text \<open>
  Thrown values. The language raises instances of \<^verbatim>\<open>TypeError\<close>; a collaborator rejects
  with whatever it likes: an instance of \<^verbatim>\<open>Error\<close>, or any other value. The program
  looks at a caught value only through \<^verbatim>\<open>String(err)\<close> (line 226), so any other value
  is represented by the text that \<^verbatim>\<open>String\<close> makes of it: \<open>JsThrown []\<close> is a
  rejection with the empty string (or with an empty array). Values whose conversion to a
  string itself throws are outside the model.
\<close>

datatype js_error = JsTypeError string | JsError string | JsThrown string

text \<open>\<^verbatim>\<open>String(err)\<close>: on an error instance the name, then the message when there is
  one; on any other value its string form.\<close>

fun String_err :: "js_error \<Rightarrow> string" where
  "String_err (JsTypeError m) = (if m = [] then ''TypeError'' else ''TypeError: '' @ m)"
| "String_err (JsError m) = (if m = [] then ''Error'' else ''Error: '' @ m)"
| "String_err (JsThrown s) = s"

text \<open>Sequencing of computations that may throw.\<close>

fun bindE :: "js_error + 'a \<Rightarrow> ('a \<Rightarrow> js_error + 'b) \<Rightarrow> js_error + 'b" where
  "bindE (Inl e) f = Inl e"
| "bindE (Inr v) f = f v"

text \<open>Truthiness (\<^verbatim>\<open>!!v\<close>, \<^verbatim>\<open>Boolean(v)\<close>).\<close>

fun truthy :: "jsval \<Rightarrow> bool" where
  "truthy JUndefined = False"
| "truthy JNull = False"
| "truthy (JBool b) = b"
| "truthy (JNum n) = (n \<noteq> 0)"
| "truthy JNaN = False"
| "truthy (JStr s) = (s \<noteq> [])"
| "truthy (JArr r xs) = True"
| "truthy (JObj r ps) = True"
| "truthy (JFun r nm ys) = True"

fun js_typeof :: "jsval \<Rightarrow> string" where
  "js_typeof JUndefined = ''undefined''"
| "js_typeof JNull = ''object''"
| "js_typeof (JBool b) = ''boolean''"
| "js_typeof (JNum n) = ''number''"
| "js_typeof JNaN = ''number''"
| "js_typeof (JStr s) = ''string''"
| "js_typeof (JArr r xs) = ''object''"
| "js_typeof (JObj r ps) = ''object''"
| "js_typeof (JFun r nm ys) = ''function''"

fun isArray :: "jsval \<Rightarrow> bool" where
  "isArray (JArr r xs) = True"
| "isArray v = False"

text \<open>\<^verbatim>\<open>a || b\<close>.\<close>

definition js_or :: "jsval \<Rightarrow> jsval \<Rightarrow> jsval" where
  "js_or a b = (if truthy a then a else b)"

text \<open>
  The property read \<^verbatim>\<open>v.p\<close>, for the property names this program reads
  (\<^verbatim>\<open>id\<close>, \<^verbatim>\<open>_serialized\<close>, \<^verbatim>\<open>participants\<close>, \<^verbatim>\<open>groupMetadata\<close>, \<^verbatim>\<open>keys\<close>,
  \<^verbatim>\<open>values\<close>, \<^verbatim>\<open>name\<close>, \<^verbatim>\<open>pushname\<close>, \<^verbatim>\<open>number\<close>, \<^verbatim>\<open>selectedGroups\<close>,
  \<^verbatim>\<open>payload\<close>, \<^verbatim>\<open>format\<close>). Reading a property of \<^verbatim>\<open>undefined\<close> or \<^verbatim>\<open>null\<close>
  throws; an object answers with its own property; of these names an array inherits
  \<^verbatim>\<open>keys\<close> and \<^verbatim>\<open>values\<close>, a function has \<^verbatim>\<open>name\<close>, and the other primitives have none.
\<close>

fun getProp :: "jsval \<Rightarrow> string \<Rightarrow> js_error + jsval" where
  "getProp JUndefined p =
     Inl (JsTypeError (''Cannot read properties of undefined (reading '' @ p @ '')''))"
| "getProp JNull p =
     Inl (JsTypeError (''Cannot read properties of null (reading '' @ p @ '')''))"
| "getProp (JObj r ps) p = Inr (case map_of ps p of Some v \<Rightarrow> v | None \<Rightarrow> JUndefined)"
| "getProp (JArr r xs) p =
     Inr (if p = ''keys'' then JFun 0 ''keys'' (map (\<lambda>i. JNum (int i)) [0..<length xs])
          else if p = ''values'' then JFun 0 ''values'' xs
          else JUndefined)"
| "getProp (JFun r nm ys) p = Inr (if p = ''name'' then JStr nm else JUndefined)"
| "getProp (JBool b) p = Inr JUndefined"
| "getProp (JNum n) p = Inr JUndefined"
| "getProp JNaN p = Inr JUndefined"
| "getProp (JStr s) p = Inr JUndefined"

text \<open>The optional read \<^verbatim>\<open>v?.p\<close>: \<^verbatim>\<open>undefined\<close> on \<^verbatim>\<open>undefined\<close> and \<^verbatim>\<open>null\<close>.\<close>

definition optProp :: "jsval \<Rightarrow> string \<Rightarrow> jsval" where
  "optProp v p = (case getProp v p of Inl e \<Rightarrow> JUndefined | Inr x \<Rightarrow> x)"

section \<open>The participant normalizer\<close>

text \<open>
  \<^verbatim>\<open>
  function getParticipantId(part) {
    if (!part) return null;
    if (typeof part === "string") return part;
    if (part.id && typeof part.id._serialized === "string") return part.id._serialized;
    if (part._serialized && typeof part._serialized === "string") return part._serialized;
    return null;
  }
  \<close>
  Every property read is a step that may throw, so the result is a sum.
\<close>

definition getParticipantId :: "jsval \<Rightarrow> js_error + jsval" where
  "getParticipantId part =
     (if \<not> truthy part then Inr JNull
      else if js_typeof part = ''string'' then Inr part
      else
        bindE (getProp part ''id'') (\<lambda>pid.
        bindE (if truthy pid
               then bindE (getProp pid ''_serialized'') (\<lambda>s. Inr (js_typeof s = ''string''))
               else Inr False) (\<lambda>nested.
        if nested then bindE (getProp part ''id'') (\<lambda>pid'. getProp pid' ''_serialized'')
        else
          bindE (getProp part ''_serialized'') (\<lambda>ser.
          bindE (if truthy ser
                 then bindE (getProp part ''_serialized'') (\<lambda>s. Inr (js_typeof s = ''string''))
                 else Inr False) (\<lambda>top.
          if top then getProp part ''_serialized'' else Inr JNull)))))"

text \<open>The two identifier fields the normalizer looks at, read with \<^verbatim>\<open>?.\<close> so that an
  absent one is \<^verbatim>\<open>undefined\<close>: \<^verbatim>\<open>part.id._serialized\<close> and \<^verbatim>\<open>part._serialized\<close>.\<close>

definition nestedId :: "jsval \<Rightarrow> jsval" where
  "nestedId part = optProp (optProp part ''id'') ''_serialized''"

definition topId :: "jsval \<Rightarrow> jsval" where
  "topId part = optProp part ''_serialized''"

section \<open>The participant collector\<close>

text \<open>Calling a value without arguments and spreading what it returns with
  \<^verbatim>\<open>Array.from\<close>; calling anything but a function throws. The text names the callee.\<close>

fun callIter :: "string \<Rightarrow> jsval \<Rightarrow> js_error + jsval list" where
  "callIter callee (JFun r nm ys) = Inr ys"
| "callIter callee v = Inl (JsTypeError (callee @ '' is not a function''))"

text \<open>\<^verbatim>\<open>xs.map(f)\<close> for an \<open>f\<close> that may throw: the first throw ends the map.\<close>

fun mapE :: "('a \<Rightarrow> js_error + 'b) \<Rightarrow> 'a list \<Rightarrow> js_error + 'b list" where
  "mapE f [] = Inr []"
| "mapE f (x # xs) = bindE (f x) (\<lambda>y. bindE (mapE f xs) (\<lambda>ys. Inr (y # ys)))"

fun elems :: "jsval \<Rightarrow> jsval list" where
  "elems (JArr r xs) = xs"
| "elems v = []"

text \<open>\<^verbatim>\<open>Object.values(o)\<close> of an object.\<close>

fun objectValues :: "jsval \<Rightarrow> jsval list" where
  "objectValues (JObj r ps) = map snd ps"
| "objectValues v = []"

text \<open>\<^verbatim>\<open>[...new Set(xs)]\<close>: a set keeps its members in insertion order and ignores the
  insertion of a member it already has.\<close>

definition setAdd :: "'a list \<Rightarrow> 'a \<Rightarrow> 'a list" where
  "setAdd s x = (if x \<in> set s then s else s @ [x])"

definition uniqueSet :: "'a list \<Rightarrow> 'a list" where
  "uniqueSet xs = foldl setAdd [] xs"

text \<open>
  Lines 151 to 173 of the \<^verbatim>\<open>/extract\<close> handler, on the fetched chat:
  \<^verbatim>\<open>
  let rawParticipants = [];
  if (Array.isArray(chat.participants)) {
    rawParticipants = chat.participants.map(getParticipantId);
  } else if (chat.participants && typeof chat.participants === "object") {
    if (typeof chat.participants.keys === "function") {
      rawParticipants = Array.from(chat.participants.keys());
      if (rawParticipants.length === 0) {
        rawParticipants = Array.from(chat.participants.values()).map(getParticipantId);
      }
    } else {
      rawParticipants = Object.values(chat.participants).map(getParticipantId);
    }
  } else if (chat.groupMetadata && Array.isArray(chat.groupMetadata.participants)) {
    rawParticipants = chat.groupMetadata.participants.map(getParticipantId);
  }
  rawParticipants = rawParticipants.filter(Boolean);
  rawParticipants = [...new Set(rawParticipants)];
  \<close>
\<close>

definition rawCandidates :: "jsval \<Rightarrow> js_error + jsval list" where
  "rawCandidates chat =
     bindE (getProp chat ''participants'') (\<lambda>ps.
       if isArray ps then mapE getParticipantId (elems ps)
       else if truthy ps \<and> js_typeof ps = ''object'' then
         bindE (getProp ps ''keys'') (\<lambda>k.
           if js_typeof k = ''function'' then
             bindE (callIter ''chat.participants.keys'' k) (\<lambda>ks.
               if length ks = 0 then
                 bindE (getProp ps ''values'') (\<lambda>v.
                 bindE (callIter ''chat.participants.values'' v) (\<lambda>vs.
                   mapE getParticipantId vs))
               else Inr ks)
           else mapE getParticipantId (objectValues ps))
       else
         bindE (getProp chat ''groupMetadata'') (\<lambda>gm.
           if truthy gm then
             bindE (getProp gm ''participants'') (\<lambda>gps.
               if isArray gps then mapE getParticipantId (elems gps) else Inr [])
           else Inr []))"

definition collectParticipants :: "jsval \<Rightarrow> js_error + jsval list" where
  "collectParticipants chat =
     bindE (rawCandidates chat) (\<lambda>raw. Inr (uniqueSet (filter truthy raw)))"

section \<open>The contact resolver\<close>

text \<open>
  The messaging client is a collaborator: each of its two lookups either fulfils with a value
  or rejects with an error. A lookup that never settles is outside this model.
\<close>

record client =
  getChatById :: "jsval \<Rightarrow> js_error + jsval"
  getContactById :: "string \<Rightarrow> js_error + jsval"

text \<open>The object \<^verbatim>\<open>{ id, name, ok }\<close>: the source builds it with \<^verbatim>\<open>id\<close> either a
  value it has just tested to be a string or \<^verbatim>\<open>null\<close>.\<close>

record resolved =
  rp_id :: "string option"
  rp_name :: jsval
  rp_ok :: bool

datatype 'a settled = Fulfilled 'a | Rejected js_error

text \<open>\<^verbatim>\<open>contact?.pushname || contact?.name || (contact?.number ? contact.number : null) || null\<close>\<close>

definition contactName :: "jsval \<Rightarrow> jsval" where
  "contactName contact =
     js_or (js_or (js_or (optProp contact ''pushname'') (optProp contact ''name''))
                  (if truthy (optProp contact ''number'') then optProp contact ''number''
                   else JNull))
           JNull"

text \<open>
  One element of \<^verbatim>\<open>contactPromises\<close>, settled:
  \<^verbatim>\<open>
  if (typeof id !== "string") return Promise.resolve({ id: null, name: null, ok: false });
  return client.getContactById(id)
    .then(contact => { const name = ...; return { id, name, ok: true }; })
    .catch(err => { return { id, name: null, ok: false }; });
  \<close>
\<close>

definition contactPromise :: "client \<Rightarrow> jsval \<Rightarrow> resolved settled" where
  "contactPromise cl i =
     (case i of
        JStr s \<Rightarrow>
          (case getContactById cl s of
             Inr contact \<Rightarrow> Fulfilled \<lparr>rp_id = Some s, rp_name = contactName contact, rp_ok = True\<rparr>
           | Inl err \<Rightarrow> Fulfilled \<lparr>rp_id = Some s, rp_name = JNull, rp_ok = False\<rparr>)
      | _ \<Rightarrow> Fulfilled \<lparr>rp_id = None, rp_name = JNull, rp_ok = False\<rparr>)"

text \<open>
  \<^verbatim>\<open>
  const settled = await Promise.allSettled(contactPromises);
  const participantsResolved = settled.map(s => {
    if (s.status === "fulfilled") return s.value;
    return { id: null, name: null, ok: false };
  }).filter(p => p && p.id);
  \<close>
\<close>

definition unsettle :: "resolved settled \<Rightarrow> resolved" where
  "unsettle s =
     (case s of Fulfilled v \<Rightarrow> v
      | Rejected e \<Rightarrow> \<lparr>rp_id = None, rp_name = JNull, rp_ok = False\<rparr>)"

definition hasId :: "resolved \<Rightarrow> bool" where
  "hasId p = (case rp_id p of None \<Rightarrow> False | Some s \<Rightarrow> s \<noteq> [])"

definition resolveContacts :: "client \<Rightarrow> jsval list \<Rightarrow> resolved list" where
  "resolveContacts cl rawParticipants =
     filter hasId (map unsettle (map (contactPromise cl) rawParticipants))"

section \<open>The entry classifier\<close>

text \<open>\<^verbatim>\<open>s.includes(t)\<close> and \<^verbatim>\<open>s.replace(t, u)\<close> with a string pattern, which replaces
  the first occurrence only.\<close>

fun js_includes :: "string \<Rightarrow> string \<Rightarrow> bool" where
  "js_includes [] t = (t = [])"
| "js_includes (c # cs) t = (prefix t (c # cs) \<or> js_includes cs t)"

fun js_replace :: "string \<Rightarrow> string \<Rightarrow> string \<Rightarrow> string" where
  "js_replace [] t u = (if t = [] then u else [])"
| "js_replace (c # cs) t u =
     (if prefix t (c # cs) then u @ drop (length t) (c # cs) else c # js_replace cs t u)"

record number_row =
  nr_number :: string
  nr_name :: jsval

record hidden_row =
  hr_id :: string
  hr_name :: jsval

record entry =
  e_groupId :: jsval
  e_groupName :: jsval
  e_name :: jsval
  e_number :: "string option"
  e_id :: string
  e_type :: string

text \<open>
  The body of the loop over \<^verbatim>\<open>participantsResolved\<close>, on the three arrays it pushes to:
  \<^verbatim>\<open>
  const id = p.id;
  const displayName = p.name || null;
  if (id.includes("@c.us")) {
    const cleanNumber = id.replace("@c.us", "");
    numbers.push({ number: cleanNumber, name: displayName || cleanNumber });
    allEntries.push({ groupId: gid, groupName: gName, name: displayName || cleanNumber,
                      number: cleanNumber, id: id, type: "number" });
  } else {
    hidden.push({ id, name: displayName || id });
    allEntries.push({ groupId: gid, groupName: gName, name: displayName || id,
                      id: id, type: "hidden" });
  }
  \<close>
  Calling \<^verbatim>\<open>includes\<close> on a \<^verbatim>\<open>null\<close> id throws.
\<close>

type_synonym buckets = "number_row list \<times> hidden_row list \<times> entry list"

definition classifyEntry :: "jsval \<Rightarrow> jsval \<Rightarrow> string \<Rightarrow> jsval \<Rightarrow> entry" where
  "classifyEntry gid gName i nm =
     (let displayName = js_or nm JNull in
      if js_includes i ''@c.us'' then
        (let cleanNumber = js_replace i ''@c.us'' [] in
         \<lparr>e_groupId = gid, e_groupName = gName, e_name = js_or displayName (JStr cleanNumber),
          e_number = Some cleanNumber, e_id = i, e_type = ''number''\<rparr>)
      else
        \<lparr>e_groupId = gid, e_groupName = gName, e_name = js_or displayName (JStr i),
         e_number = None, e_id = i, e_type = ''hidden''\<rparr>)"

definition classifyPush :: "jsval \<Rightarrow> jsval \<Rightarrow> string \<Rightarrow> jsval \<Rightarrow> buckets \<Rightarrow> buckets" where
  "classifyPush gid gName i nm b =
     (case b of (numbers, hidden, allEntries) \<Rightarrow>
       (let displayName = js_or nm JNull in
        if js_includes i ''@c.us'' then
          (let cleanNumber = js_replace i ''@c.us'' [] in
           (numbers @ [\<lparr>nr_number = cleanNumber, nr_name = js_or displayName (JStr cleanNumber)\<rparr>],
            hidden,
            allEntries @ [classifyEntry gid gName i nm]))
        else
          (numbers,
           hidden @ [\<lparr>hr_id = i, hr_name = js_or displayName (JStr i)\<rparr>],
           allEntries @ [classifyEntry gid gName i nm])))"

fun classifyLoop ::
  "jsval \<Rightarrow> jsval \<Rightarrow> resolved list \<Rightarrow> buckets \<Rightarrow> js_error option \<times> buckets" where
  "classifyLoop gid gName [] b = (None, b)"
| "classifyLoop gid gName (p # ps) b =
     (case rp_id p of
        None \<Rightarrow> (Some (JsTypeError ''Cannot read properties of null (reading includes)''), b)
      | Some i \<Rightarrow> classifyLoop gid gName ps (classifyPush gid gName i (rp_name p) b))"

section \<open>The extraction orchestrator\<close>

record group_result =
  gr_groupId :: jsval
  gr_groupName :: jsval
  gr_numbers :: "number_row list"
  gr_hiddenIds :: "hidden_row list"
  gr_error :: "string option"

text \<open>
  The body of the \<^verbatim>\<open>try\<close> for one group id, on the running \<^verbatim>\<open>allEntries\<close>: the
  chat fetch, \<^verbatim>\<open>const gName = chat?.name || gid\<close>, the collector, the resolver and the
  classification loop. It returns what the \<^verbatim>\<open>try\<close> pushes to \<^verbatim>\<open>perGroupResults\<close>,
  or the error thrown, and in both cases \<^verbatim>\<open>allEntries\<close> as the body left it. The two
  calls of \<^verbatim>\<open>console.log\<close> in the body are left out: they only print the group's name
  and id and the two counts.
\<close>

definition extractGroup ::
  "client \<Rightarrow> jsval \<Rightarrow> entry list \<Rightarrow> (js_error + group_result) \<times> entry list" where
  "extractGroup cl gid allEntries =
     (case getChatById cl gid of
        Inl err \<Rightarrow> (Inl err, allEntries)
      | Inr chat \<Rightarrow>
          (let gName = js_or (optProp chat ''name'') gid in
           case collectParticipants chat of
             Inl err \<Rightarrow> (Inl err, allEntries)
           | Inr rawParticipants \<Rightarrow>
               (case classifyLoop gid gName (resolveContacts cl rawParticipants)
                       ([], [], allEntries) of
                  (Some err, (numbers, hidden, allEntries')) \<Rightarrow> (Inl err, allEntries')
                | (None, (numbers, hidden, allEntries')) \<Rightarrow>
                    (Inr \<lparr>gr_groupId = gid, gr_groupName = gName, gr_numbers = numbers,
                          gr_hiddenIds = hidden, gr_error = None\<rparr>,
                     allEntries'))))"

text \<open>
  The loop \<^verbatim>\<open>for (const gid of selectedGroups) { try { ... } catch (err) { ... } }\<close>,
  whose \<^verbatim>\<open>catch\<close> pushes
  \<^verbatim>\<open>{ groupId: gid, groupName: gid, numbers: [], hiddenIds: [], error: String(err) }\<close>.
\<close>

fun extractLoop ::
  "client \<Rightarrow> jsval list \<Rightarrow> entry list \<times> group_result list
     \<Rightarrow> entry list \<times> group_result list" where
  "extractLoop cl [] acc = acc"
| "extractLoop cl (gid # gids) (allEntries, perGroupResults) =
     (case extractGroup cl gid allEntries of
        (Inr gr, allEntries') \<Rightarrow> extractLoop cl gids (allEntries', perGroupResults @ [gr])
      | (Inl err, allEntries') \<Rightarrow>
          extractLoop cl gids
            (allEntries',
             perGroupResults @
               [\<lparr>gr_groupId = gid, gr_groupName = gid, gr_numbers = [], gr_hiddenIds = [],
                 gr_error = Some (String_err err)\<rparr>]))"

section \<open>The server state and the two handlers\<close>

text \<open>The three module-level variables \<^verbatim>\<open>qrCodeData\<close>, \<^verbatim>\<open>isAuthenticated\<close> and
  \<^verbatim>\<open>groupsCache\<close>. A handler takes the state and returns it with its response.\<close>

record server_state =
  qrCodeData :: jsval
  isAuthenticated :: bool
  groupsCache :: "jsval list"

datatype fs_op =
    EnsureDir string
  | WriteFile string string
  | XlsxWriteFile string jsval

datatype response =
    Redirect string
  | RenderMembers "group_result list" "entry list" "entry list" "entry list"
  | Send nat string
  | Download string string
  | Unhandled js_error

text \<open>
  \<^verbatim>\<open>POST /extract\<close>, on the value of \<^verbatim>\<open>req.body.selectedGroups\<close>:
  \<^verbatim>\<open>
  if (!isAuthenticated) return res.redirect("/");
  let { selectedGroups } = req.body;
  if (!selectedGroups) return res.redirect("/groups");
  if (!Array.isArray(selectedGroups)) selectedGroups = [selectedGroups];
  ... the loop ...
  res.render("members", { perGroupResults, combined: { all: allEntries,
    numbers: allEntries.filter(x => x.type === "number"),
    hidden: allEntries.filter(x => x.type === "hidden") } });
  \<close>
\<close>

definition post_extract ::
  "client \<Rightarrow> server_state \<Rightarrow> jsval \<Rightarrow> response \<times> server_state" where
  "post_extract cl st selectedGroups =
     (if \<not> isAuthenticated st then (Redirect ''/'', st)
      else if \<not> truthy selectedGroups then (Redirect ''/groups'', st)
      else
        (case extractLoop cl
                (if \<not> isArray selectedGroups then [selectedGroups] else elems selectedGroups)
                ([], []) of
           (allEntries, perGroupResults) \<Rightarrow>
             (RenderMembers perGroupResults allEntries
                (filter (\<lambda>x. e_type x = ''number'') allEntries)
                (filter (\<lambda>x. e_type x = ''hidden'') allEntries),
              st)))"

section \<open>The export handler\<close>

text \<open>
  What \<^verbatim>\<open>POST /export\<close> uses and this repository does not define: the directory of the
  module, the date of the day as \<^verbatim>\<open>new Date().toISOString().slice(0, 10)\<close> gives it, the
  two file-system calls of \<^verbatim>\<open>fs-extra\<close> (\<open>None\<close> when they succeed, the error when they
  throw), \<^verbatim>\<open>JSON.parse\<close>, \<^verbatim>\<open>JSON.stringify(payload, null, 2)\<close>, the
  \<^verbatim>\<open>json2csv\<close> parser and the \<^verbatim>\<open>xlsx\<close> workbook builder and writer.
\<close>

record exporter =
  dirname :: string
  today :: string
  ensureDir :: "string \<Rightarrow> js_error option"
  writeFile :: "string \<Rightarrow> string \<Rightarrow> js_error option"
  json_parse :: "string \<Rightarrow> js_error + jsval"
  json_stringify :: "jsval \<Rightarrow> string"
  csv_parse :: "jsval \<Rightarrow> js_error + string"
  xlsx_book :: "jsval \<Rightarrow> js_error + jsval"
  xlsx_writeFile :: "jsval \<Rightarrow> string \<Rightarrow> js_error option"

text \<open>\<^verbatim>\<open>s.toLowerCase()\<close>: the letters A to Z go to a to z. No character outside ASCII
  goes to a letter of \<^verbatim>\<open>csv\<close>, \<^verbatim>\<open>xlsx\<close> or \<^verbatim>\<open>json\<close>, so the bytes of the
  others are left as they are.\<close>

definition lowerChar :: "char \<Rightarrow> char" where
  "lowerChar c =
     (case map_of (zip ''ABCDEFGHIJKLMNOPQRSTUVWXYZ'' ''abcdefghijklmnopqrstuvwxyz'') c of
        Some l \<Rightarrow> l
      | None \<Rightarrow> c)"

definition js_toLowerCase :: "string \<Rightarrow> string" where
  "js_toLowerCase s = map lowerChar s"

text \<open>\<^verbatim>\<open>(req.body.format || "csv").toLowerCase()\<close>: only a string has the method.\<close>

definition formatOf :: "jsval \<Rightarrow> js_error + string" where
  "formatOf fmt =
     (case js_or fmt (JStr ''csv'') of
        JStr s \<Rightarrow> Inr (js_toLowerCase s)
      | _ \<Rightarrow> Inl (JsTypeError ''(req.body.format || csv).toLowerCase is not a function''))"

definition path_join :: "string \<Rightarrow> string \<Rightarrow> string" where
  "path_join dir name = dir @ ''/'' @ name"

definition makeExportFilename :: "exporter \<Rightarrow> string \<Rightarrow> string \<Rightarrow> string" where
  "makeExportFilename ex pre ext = pre @ ''-'' @ today ex @ ''.'' @ ext"

text \<open>
  The \<^verbatim>\<open>try\<close> block of the handler, with the \<^verbatim>\<open>catch\<close> that answers
  \<^verbatim>\<open>500 Export failed\<close>. The result is the response and the file-system calls made, in order.
  \<^verbatim>\<open>
  const outDir = path.join(__dirname, "exports");
  await fs.ensureDir(outDir);
  if (format === "csv") {
    const csv = parser.parse(payload);
    const fname = makeExportFilename("whatsapp-export", "csv");
    const full = path.join(outDir, fname);
    await fs.writeFile(full, csv, "utf8");
    return res.download(full, fname);
  }
  if (format === "xlsx") { ... XLSX.writeFile(wb, full); return res.download(full, fname); }
  if (format === "json") {
    ... await fs.writeFile(full, JSON.stringify(payload, null, 2), "utf8");
    return res.download(full, fname);
  }
  return res.status(400).send("Unsupported format");
  \<close>
\<close>

definition exportDispatch :: "exporter \<Rightarrow> jsval \<Rightarrow> string \<Rightarrow> response \<times> fs_op list" where
  "exportDispatch ex payload format =
     (let outDir = path_join (dirname ex) ''exports'' in
      case ensureDir ex outDir of
        Some err \<Rightarrow> (Send 500 ''Export failed'', [EnsureDir outDir])
      | None \<Rightarrow>
          if format = ''csv'' then
            (case csv_parse ex payload of
               Inl err \<Rightarrow> (Send 500 ''Export failed'', [EnsureDir outDir])
             | Inr csv \<Rightarrow>
                 (let fname = makeExportFilename ex ''whatsapp-export'' ''csv'';
                      full = path_join outDir fname in
                  case writeFile ex full csv of
                    Some err \<Rightarrow>
                      (Send 500 ''Export failed'', [EnsureDir outDir, WriteFile full csv])
                  | None \<Rightarrow> (Download full fname, [EnsureDir outDir, WriteFile full csv])))
          else if format = ''xlsx'' then
            (case xlsx_book ex payload of
               Inl err \<Rightarrow> (Send 500 ''Export failed'', [EnsureDir outDir])
             | Inr wb \<Rightarrow>
                 (let fname = makeExportFilename ex ''whatsapp-export'' ''xlsx'';
                      full = path_join outDir fname in
                  case xlsx_writeFile ex wb full of
                    Some err \<Rightarrow>
                      (Send 500 ''Export failed'', [EnsureDir outDir, XlsxWriteFile full wb])
                  | None \<Rightarrow> (Download full fname, [EnsureDir outDir, XlsxWriteFile full wb])))
          else if format = ''json'' then
            (let fname = makeExportFilename ex ''whatsapp-export'' ''json'';
                 full = path_join outDir fname;
                 content = json_stringify ex payload in
             case writeFile ex full content of
               Some err \<Rightarrow>
                 (Send 500 ''Export failed'', [EnsureDir outDir, WriteFile full content])
             | None \<Rightarrow> (Download full fname, [EnsureDir outDir, WriteFile full content]))
          else (Send 400 ''Unsupported format'', [EnsureDir outDir]))"

text \<open>
  \<^verbatim>\<open>POST /export\<close>, on the values of \<^verbatim>\<open>req.body.payload\<close> and \<^verbatim>\<open>req.body.format\<close>:
  \<^verbatim>\<open>
  if (!isAuthenticated) return res.status(403).send("Not authenticated");
  let payload = req.body.payload;
  if (!payload) return res.status(400).send("No payload");
  if (typeof payload === "string") {
    try { payload = JSON.parse(payload); }
    catch (e) { return res.status(400).send("Invalid payload JSON"); }
  }
  if (!Array.isArray(payload) || payload.length === 0)
    return res.status(400).send("Payload must be non-empty array");
  const format = (req.body.format || "csv").toLowerCase();
  try { ... } catch (err) { return res.status(500).send("Export failed"); }
  \<close>
  The computation of \<^verbatim>\<open>format\<close> stands before the \<^verbatim>\<open>try\<close>: what it throws is not
  caught by the handler.
\<close>

definition decodePayload :: "exporter \<Rightarrow> jsval \<Rightarrow> js_error + jsval" where
  "decodePayload ex payload =
     (case payload of JStr s \<Rightarrow> json_parse ex s | _ \<Rightarrow> Inr payload)"

definition post_export ::
  "exporter \<Rightarrow> server_state \<Rightarrow> jsval \<Rightarrow> jsval \<Rightarrow> (response \<times> fs_op list) \<times> server_state" where
  "post_export ex st payload0 fmt =
     (if \<not> isAuthenticated st then ((Send 403 ''Not authenticated'', []), st)
      else if \<not> truthy payload0 then ((Send 400 ''No payload'', []), st)
      else
        (case decodePayload ex payload0 of
           Inl e \<Rightarrow> ((Send 400 ''Invalid payload JSON'', []), st)
         | Inr payload \<Rightarrow>
             if \<not> isArray payload \<or> length (elems payload) = 0
             then ((Send 400 ''Payload must be non-empty array'', []), st)
             else
               (case formatOf fmt of
                  Inl e \<Rightarrow> ((Unhandled e, []), st)
                | Inr format \<Rightarrow> (exportDispatch ex payload format, st))))"

section \<open>Notions used to state the properties of the collector\<close>

text \<open>What the normalizer makes of the elements of a list.\<close>

definition normalizedOf :: "jsval list \<Rightarrow> jsval set" where
  "normalizedOf xs = {v. \<exists>x\<in>set xs. getParticipantId x = Inr v}"

text \<open>The collector succeeds on the chat, and what it returns is, without repetition, the
  truthy candidates.\<close>

definition collectsFrom :: "jsval \<Rightarrow> jsval set \<Rightarrow> bool" where
  "collectsFrom chat C =
     (\<exists>ids. collectParticipants chat = Inr ids \<and> distinct ids \<and> set ids = {v \<in> C. truthy v})"

text \<open>
  Two values that hold the same elements in a different order: the elements of an array,
  what a function yields, or the properties of an object (whose names are distinct), each
  property again up to order. References play no part.
\<close>

inductive reordered :: "jsval \<Rightarrow> jsval \<Rightarrow> bool" where
  same: "reordered v v"
| arr: "mset xs = mset ys \<Longrightarrow> reordered (JArr r xs) (JArr r' ys)"
| fn: "mset xs = mset ys \<Longrightarrow> reordered (JFun r nm xs) (JFun r' nm ys)"
| obj: "distinct (map fst ps) \<Longrightarrow> mset (map fst qs) = mset (map fst ps) \<Longrightarrow>
        (\<forall>k\<in>set (map fst ps). reordered (the (map_of ps k)) (the (map_of qs k))) \<Longrightarrow>
        reordered (JObj r ps) (JObj r' qs)"

section \<open>A client for the examples\<close>

text \<open>A client that knows one group, \<^verbatim>\<open>G2\<close>, with two participants, and one contact.\<close>

definition demoChat :: jsval where
  "demoChat =
     JObj 10 [(''name'', JStr ''Team''),
              (''participants'',
               JArr 11 [JStr ''111@c.us'',
                        JObj 12 [(''id'', JObj 13 [(''_serialized'', JStr ''ABC@lid'')])]])]"

definition demoGetChatById :: "jsval \<Rightarrow> js_error + jsval" where
  "demoGetChatById gid =
     (if gid = JStr ''G2'' then Inr demoChat else Inl (JsError ''chat not found''))"

definition demoGetContactById :: "string \<Rightarrow> js_error + jsval" where
  "demoGetContactById i =
     (if i = ''111@c.us'' then Inr (JObj 14 [(''pushname'', JStr ''Ann'')])
      else Inl (JsError ''contact not found''))"

definition demoClient :: client where
  "demoClient = \<lparr>getChatById = demoGetChatById, getContactById = demoGetContactById\<rparr>"


section \<open>Exporters for the examples\<close>

text \<open>An exporter on which every collaborator call succeeds, and one whose directory cannot
  be created.\<close>

definition demoEnsureDir :: "string \<Rightarrow> js_error option" where
  "demoEnsureDir dir = None"

definition brokenEnsureDir :: "string \<Rightarrow> js_error option" where
  "brokenEnsureDir dir = Some (JsError ''EACCES: permission denied, mkdir'')"

definition demoWriteFile :: "string \<Rightarrow> string \<Rightarrow> js_error option" where
  "demoWriteFile file content = None"

definition demoJsonParse :: "string \<Rightarrow> js_error + jsval" where
  "demoJsonParse s = Inl (JsError ''Unexpected token'')"

definition demoJsonStringify :: "jsval \<Rightarrow> string" where
  "demoJsonStringify v = ''[]''"

definition demoCsvParse :: "jsval \<Rightarrow> js_error + string" where
  "demoCsvParse v = Inr ''groupName,groupId,name,number,id,type''"

definition demoXlsxBook :: "jsval \<Rightarrow> js_error + jsval" where
  "demoXlsxBook v = Inr v"

definition demoXlsxWriteFile :: "jsval \<Rightarrow> string \<Rightarrow> js_error option" where
  "demoXlsxWriteFile wb file = None"

definition demoExporter :: exporter where
  "demoExporter =
     \<lparr>dirname = ''/app'', today = ''2024-05-01'', ensureDir = demoEnsureDir,
      writeFile = demoWriteFile, json_parse = demoJsonParse,
      json_stringify = demoJsonStringify, csv_parse = demoCsvParse,
      xlsx_book = demoXlsxBook, xlsx_writeFile = demoXlsxWriteFile\<rparr>"

definition brokenDirExporter :: exporter where
  "brokenDirExporter = demoExporter\<lparr>ensureDir := brokenEnsureDir\<rparr>"

definition demoState :: server_state where
  "demoState = \<lparr>qrCodeData = JNull, isAuthenticated = True, groupsCache = []\<rparr>"

definition demoPayload :: jsval where
  "demoPayload =
     JArr 20 [JObj 21 [(''groupId'', JStr ''G2''), (''groupName'', JStr ''Team''),
                       (''name'', JStr ''Ann''), (''number'', JStr ''111''),
                       (''id'', JStr ''111@c.us''), (''type'', JStr ''number'')]]"

section \<open>Properties of the normalizer\<close>

lemma truthy_getProp: "truthy v \<Longrightarrow> getProp v p = Inr (optProp v p)"
  by (cases v) (simp_all add: optProp_def)

lemma falsy_optProp: "\<not> truthy v \<Longrightarrow> optProp v p = JUndefined"
  by (cases v) (simp_all add: optProp_def)

lemma typeof_string_iff: "js_typeof v = ''string'' \<longleftrightarrow> (\<exists>s. v = JStr s)"
  by (cases v) simp_all

lemma getParticipantId_eq:
  "getParticipantId part =
     Inr (if \<not> truthy part then JNull
          else if js_typeof part = ''string'' then part
          else if js_typeof (optProp (optProp part ''id'') ''_serialized'') = ''string''
            then optProp (optProp part ''id'') ''_serialized''
          else if js_typeof (optProp part ''_serialized'') = ''string''
                  \<and> truthy (optProp part ''_serialized'')
            then optProp part ''_serialized''
          else JNull)"
proof (cases "truthy part")
  case False
  then show ?thesis by (simp add: getParticipantId_def)
next
  case True
  note tp = truthy_getProp [OF True]
  show ?thesis
  proof (cases "truthy (optProp part ''id'')")
    case True
    then show ?thesis
      using \<open>truthy part\<close>
      by (simp add: getParticipantId_def tp truthy_getProp)
  next
    case False
    then show ?thesis
      using \<open>truthy part\<close> falsy_optProp [OF False, of "''_serialized''"]
      by (simp add: getParticipantId_def tp)
  qed
qed


lemma getParticipantId_total: "\<exists>v. getParticipantId part = Inr v"
  by (simp add: getParticipantId_eq)

text \<open>
  C8, as amended. The normalizer never throws, and it returns, in this order of priority:
  \<^verbatim>\<open>null\<close> for a falsy input; the input itself when it is a string; the nested
  identifier \<^verbatim>\<open>part.id._serialized\<close> when that is a string; the top-level field
  \<^verbatim>\<open>part._serialized\<close> when that is a string and is not empty; \<^verbatim>\<open>null\<close> otherwise.
\<close>

theorem getParticipantId_policy:
  "getParticipantId part =
     Inr (if \<not> truthy part then JNull
          else if js_typeof part = ''string'' then part
          else if js_typeof (nestedId part) = ''string'' then nestedId part
          else if js_typeof (topId part) = ''string'' \<and> topId part \<noteq> JStr [] then topId part
          else JNull)"
proof -
  have "truthy (topId part) \<longleftrightarrow> topId part \<noteq> JStr []"
    if "js_typeof (topId part) = ''string''"
    using that by (auto simp: typeof_string_iff)
  then show ?thesis
    by (auto simp: getParticipantId_eq nestedId_def topId_def)
qed

theorem getParticipantId_policy_witness:
  "getParticipantId (JObj 1 [(''id'', JObj 2 [(''_serialized'', JStr ''1234567890@c.us'')])])
     = Inr (JStr ''1234567890@c.us'')
   \<and> getParticipantId (JObj 3 [(''_serialized'', JStr ''ABCXYZ@lid'')]) = Inr (JStr ''ABCXYZ@lid'')
   \<and> getParticipantId (JNum 7) = Inr JNull"
  using getParticipantId_policy [of "JObj 1 [(''id'', JObj 2 [(''_serialized'', JStr ''1234567890@c.us'')])]"]
    getParticipantId_policy [of "JObj 3 [(''_serialized'', JStr ''ABCXYZ@lid'')]"]
    getParticipantId_policy [of "JNum 7"]
  by (simp add: nestedId_def topId_def optProp_def)

text \<open>
  C8 as the specification states it fails on an object whose top-level field
  \<^verbatim>\<open>_serialized\<close> is the empty string: the input is truthy, is not a string, exposes no
  nested identifier, and its top-level field is a string, yet the normalizer returns
  \<^verbatim>\<open>null\<close> and not that field.
\<close>

theorem getParticipantId_empty_field_counterexample:
  "truthy (JObj 1 [(''_serialized'', JStr [])])
   \<and> js_typeof (JObj 1 [(''_serialized'', JStr [])]) \<noteq> ''string''
   \<and> js_typeof (nestedId (JObj 1 [(''_serialized'', JStr [])])) \<noteq> ''string''
   \<and> js_typeof (topId (JObj 1 [(''_serialized'', JStr [])])) = ''string''
   \<and> getParticipantId (JObj 1 [(''_serialized'', JStr [])]) = Inr JNull
   \<and> getParticipantId (JObj 1 [(''_serialized'', JStr [])])
        \<noteq> Inr (topId (JObj 1 [(''_serialized'', JStr [])]))"
  by (simp add: getParticipantId_def nestedId_def topId_def optProp_def)


section \<open>Properties of the collector\<close>

lemma set_foldl_setAdd: "set (foldl setAdd acc xs) = set acc \<union> set xs"
  by (induction xs arbitrary: acc) (auto simp: setAdd_def)

lemma distinct_foldl_setAdd: "distinct acc \<Longrightarrow> distinct (foldl setAdd acc xs)"
  by (induction xs arbitrary: acc) (auto simp: setAdd_def)

lemma set_uniqueSet: "set (uniqueSet xs) = set xs"
  by (simp add: uniqueSet_def set_foldl_setAdd)

lemma distinct_uniqueSet: "distinct (uniqueSet xs)"
  by (simp add: uniqueSet_def distinct_foldl_setAdd)

lemma uniqueSet_Nil: "uniqueSet [] = []"
  by (simp add: uniqueSet_def)

lemma mapE_Inr_iff: "mapE f xs = Inr ys \<longleftrightarrow> list_all2 (\<lambda>x y. f x = Inr y) xs ys"
proof (induction xs arbitrary: ys)
  case Nil
  then show ?case by auto
next
  case (Cons x xs)
  show ?case
  proof (cases "f x")
    case (Inl e)
    then show ?thesis by (auto simp: list_all2_Cons1)
  next
    case (Inr y)
    show ?thesis
    proof (cases "mapE f xs")
      case (Inl e)
      with Cons Inr show ?thesis by (auto simp: list_all2_Cons1)
    next
      case mr: (Inr zs)
      with Cons Inr show ?thesis by (auto simp: list_all2_Cons1)
    qed
  qed
qed

lemma mapE_total:
  assumes "\<And>x. \<exists>y. f x = Inr y"
  shows "\<exists>ys. mapE f xs = Inr ys"
proof (induction xs)
  case Nil
  show ?case by simp
next
  case (Cons x xs)
  from assms obtain y where "f x = Inr y" by blast
  with Cons show ?case by auto
qed

lemma mapE_set:
  assumes "mapE f xs = Inr ys"
  shows "set ys = {v. \<exists>x\<in>set xs. f x = Inr v}"
proof -
  from assms have la: "list_all2 (\<lambda>x y. f x = Inr y) xs ys"
    by (simp add: mapE_Inr_iff)
  show ?thesis
  proof (intro set_eqI iffI)
    fix v assume "v \<in> set ys"
    then obtain i where "i < length ys" "ys ! i = v" by (auto simp: in_set_conv_nth)
    with la have "f (xs ! i) = Inr v" "i < length xs"
      by (auto simp: list_all2_conv_all_nth)
    then show "v \<in> {v. \<exists>x\<in>set xs. f x = Inr v}" by auto
  next
    fix v assume "v \<in> {v. \<exists>x\<in>set xs. f x = Inr v}"
    then obtain x where "x \<in> set xs" "f x = Inr v" by auto
    then obtain i where "i < length xs" "xs ! i = x" by (auto simp: in_set_conv_nth)
    with la \<open>f x = Inr v\<close> have "ys ! i = v" "i < length ys"
      by (auto simp: list_all2_conv_all_nth)
    then show "v \<in> set ys" by auto
  qed
qed

lemma mapE_getParticipantId: "\<exists>ys. mapE getParticipantId xs = Inr ys"
  by (rule mapE_total) (rule getParticipantId_total)

section \<open>Order independence of the collector\<close>

lemma reordered_truthy: "reordered v v' \<Longrightarrow> truthy v' = truthy v"
  by (induction rule: reordered.induct) simp_all

lemma reordered_typeof: "reordered v v' \<Longrightarrow> js_typeof v' = js_typeof v"
  by (induction rule: reordered.induct) simp_all

lemma reordered_isArray: "reordered v v' \<Longrightarrow> isArray v' = isArray v"
  by (induction rule: reordered.induct) simp_all

lemma reordered_string: "reordered v v' \<Longrightarrow> js_typeof v = ''string'' \<Longrightarrow> v' = v"
  by (induction rule: reordered.induct) simp_all

lemma reordered_elems: "reordered v v' \<Longrightarrow> mset (elems v') = mset (elems v)"
  by (induction rule: reordered.induct) simp_all

lemma map_of_keys_perm:
  assumes "distinct (map fst ps)" "mset (map fst qs) = mset (map fst ps)"
  shows "map_of qs k = None \<longleftrightarrow> map_of ps k = None"
proof -
  from assms(2) have "set (map fst qs) = set (map fst ps)" by (rule mset_eq_setD)
  then show ?thesis by (simp add: map_of_eq_None_iff)
qed


lemma reordered_optProp:
  assumes "reordered v v'" shows "reordered (optProp v p) (optProp v' p)"
  using assms
proof (cases rule: reordered.cases)
  case same
  then show ?thesis by (simp add: reordered.same)
next
  case (arr xs ys r r')
  then have "length xs = length ys" by (metis size_mset)
  with arr show ?thesis by (auto simp: optProp_def intro: reordered.intros)
next
  case (fn xs ys r nm r')
  then show ?thesis by (auto simp: optProp_def intro: reordered.intros)
next
  case (obj ps qs r r')
  show ?thesis
  proof (cases "map_of ps p")
    case None
    with obj map_of_keys_perm [of ps qs p] show ?thesis
      by (auto simp: optProp_def intro: reordered.intros)
  next
    case (Some a)
    then have "p \<in> set (map fst ps)" by (metis map_of_eq_None_iff option.distinct(1) set_map)
    with obj(5) have r: "reordered (the (map_of ps p)) (the (map_of qs p))" by blast
    from Some obj map_of_keys_perm [of ps qs p] obtain b where "map_of qs p = Some b" by auto
    with r Some obj show ?thesis by (simp add: optProp_def)
  qed
qed

lemma reordered_getParticipantId:
  assumes "reordered v v'" shows "getParticipantId v' = getParticipantId v"
proof -
  have n: "reordered (nestedId v) (nestedId v')"
    unfolding nestedId_def by (intro reordered_optProp assms)
  have t: "reordered (topId v) (topId v')"
    unfolding topId_def by (intro reordered_optProp assms)
  have 1: "js_typeof (nestedId v) = ''string'' \<Longrightarrow> nestedId v' = nestedId v"
    using n by (rule reordered_string)
  have 2: "js_typeof (topId v) = ''string'' \<Longrightarrow> topId v' = topId v"
    using t by (rule reordered_string)
  have 3: "js_typeof v = ''string'' \<Longrightarrow> v' = v"
    using assms by (rule reordered_string)
  show ?thesis
    using 1 2 3 reordered_typeof [OF n] reordered_typeof [OF t] reordered_typeof [OF assms]
      reordered_truthy [OF assms] reordered_truthy [OF t]
    unfolding getParticipantId_eq nestedId_def topId_def
    by auto
qed

lemma reordered_falsy: "reordered v v' \<Longrightarrow> \<not> truthy v \<Longrightarrow> v' = v"
  by (induction rule: reordered.induct) simp_all

lemma reordered_fun:
  assumes "reordered v v'" "js_typeof v = ''function''"
  shows "\<exists>r nm ks r' ks'. v = JFun r nm ks \<and> v' = JFun r' nm ks' \<and> mset ks' = mset ks"
  using assms by (induction rule: reordered.induct) (auto simp: js_typeof.simps elim: js_typeof.elims)

lemma getProp_defined: "v \<noteq> JUndefined \<Longrightarrow> v \<noteq> JNull \<Longrightarrow> getProp v p = Inr (optProp v p)"
  by (cases v) (simp_all add: optProp_def)


lemma mapE_getParticipantId_eq:
  "mapE getParticipantId xs = Inr (map (\<lambda>x. projr (getParticipantId x)) xs)"
  by (induction xs) (simp_all add: getParticipantId_eq)

lemma callIter_not_function:
  "js_typeof v \<noteq> ''function'' \<Longrightarrow> callIter c v = Inl (JsTypeError (c @ '' is not a function''))"
  by (cases v) simp_all

lemma typeof_function_iff: "js_typeof v = ''function'' \<longleftrightarrow> (\<exists>r nm ys. v = JFun r nm ys)"
  by (cases v) simp_all


text \<open>The candidates, with every property read written as an optional read.\<close>

lemma rawCandidates_unfold:
  assumes "chat \<noteq> JUndefined" "chat \<noteq> JNull"
  shows "rawCandidates chat =
     (let P = optProp chat ''participants''; G = optProp chat ''groupMetadata'' in
      if isArray P then mapE getParticipantId (elems P)
      else if truthy P \<and> js_typeof P = ''object'' then
        (if js_typeof (optProp P ''keys'') = ''function'' then
           bindE (callIter ''chat.participants.keys'' (optProp P ''keys'')) (\<lambda>ks.
             if ks = [] then
               bindE (callIter ''chat.participants.values'' (optProp P ''values''))
                 (mapE getParticipantId)
             else Inr ks)
         else mapE getParticipantId (objectValues P))
      else if truthy G \<and> isArray (optProp G ''participants'')
        then mapE getParticipantId (elems (optProp G ''participants''))
      else Inr [])"
proof -
  note c = getProp_defined [OF assms]
  show ?thesis
  proof (cases "truthy (optProp chat ''groupMetadata'')")
    case True
    show ?thesis
      by (cases "truthy (optProp chat ''participants'')")
         (simp_all add: rawCandidates_def c truthy_getProp True Let_def cong: if_cong)
  next
    case False
    show ?thesis
      by (cases "truthy (optProp chat ''participants'')")
         (simp_all add: rawCandidates_def c truthy_getProp False Let_def cong: if_cong)
  qed
qed


lemma alist_values:
  "distinct (map fst ps) \<Longrightarrow> map snd ps = map (\<lambda>k. the (map_of ps k)) (map fst ps)"
proof (induction ps)
  case Nil
  show ?case by simp
next
  case (Cons a ps)
  then have "map snd ps = map (\<lambda>k. the (map_of ps k)) (map fst ps)" by simp
  moreover have "\<forall>k\<in>set (map fst ps). map_of (a # ps) k = map_of ps k"
    using Cons.prems by (cases a) auto
  ultimately show ?case by (cases a) (auto simp del: map_map)
qed

lemma alist_values_mset:
  assumes "distinct (map fst ps)"
  shows "mset (map f (map snd ps)) = image_mset (\<lambda>k. f (the (map_of ps k))) (mset (map fst ps))"
proof -
  have "map f (map snd ps) = map f (map (\<lambda>k. the (map_of ps k)) (map fst ps))"
    by (rule arg_cong [OF alist_values [OF assms]])
  also have "\<dots> = map (\<lambda>k. f (the (map_of ps k))) (map fst ps)"
    by (simp only: map_map comp_def)
  finally show ?thesis
    by (simp only: mset_map)
qed

lemma reordered_objectValues:
  assumes "reordered v v'" and f: "\<And>a b. reordered a b \<Longrightarrow> f b = f a"
  shows "mset (map f (objectValues v')) = mset (map f (objectValues v))"
  using assms(1)
proof (cases rule: reordered.cases)
  case (obj ps qs r r')
  from obj(3,4) have dq: "distinct (map fst qs)"
    by (metis distinct_count_atmost_1 set_mset_mset)
  have "mset (map f (map snd qs)) = image_mset (\<lambda>k. f (the (map_of qs k))) (mset (map fst qs))"
    by (rule alist_values_mset [OF dq])
  also have "\<dots> = image_mset (\<lambda>k. f (the (map_of qs k))) (mset (map fst ps))"
    by (simp only: obj(4))
  also have "\<dots> = image_mset (\<lambda>k. f (the (map_of ps k))) (mset (map fst ps))"
    by (rule image_mset_cong) (use obj(5) f in auto)
  also have "\<dots> = mset (map f (map snd ps))"
    by (rule alist_values_mset [OF obj(3), symmetric])
  finally show ?thesis using obj(1,2) by (simp only: objectValues.simps)
qed simp_all

lemma mset_map_cong: "mset xs = mset ys \<Longrightarrow> mset (map f xs) = mset (map f ys)"
  by (metis mset_map)

lemma reordered_rawCandidates:
  assumes r: "reordered c c'"
  shows "map_sum id mset (rawCandidates c') = map_sum id mset (rawCandidates c)"
proof (cases "truthy c")
  case False
  with r have "c' = c" by (rule reordered_falsy)
  then show ?thesis by simp
next
  case True
  with r have True': "truthy c'" by (simp add: reordered_truthy)
  from True have c: "c \<noteq> JUndefined" "c \<noteq> JNull" by auto
  from True' have c': "c' \<noteq> JUndefined" "c' \<noteq> JNull" by auto
  define P where "P = optProp c ''participants''"
  define P' where "P' = optProp c' ''participants''"
  define G where "G = optProp c ''groupMetadata''"
  define G' where "G' = optProp c' ''groupMetadata''"
  define N where "N = (\<lambda>x. projr (getParticipantId x))"
  have rP: "reordered P P'" unfolding P_def P'_def by (rule reordered_optProp [OF r])
  have rG: "reordered G G'" unfolding G_def G'_def by (rule reordered_optProp [OF r])
  have rK: "reordered (optProp P ''keys'') (optProp P' ''keys'')"
    by (rule reordered_optProp [OF rP])
  have rV: "reordered (optProp P ''values'') (optProp P' ''values'')"
    by (rule reordered_optProp [OF rP])
  have rGP: "reordered (optProp G ''participants'') (optProp G' ''participants'')"
    by (rule reordered_optProp [OF rG])
  have N: "N b = N a" if "reordered a b" for a b
    using that by (simp add: N_def reordered_getParticipantId)
  have m: "mapE getParticipantId xs = Inr (map N xs)" for xs
    unfolding N_def by (rule mapE_getParticipantId_eq)
  have arrs: "mset (map N (elems b)) = mset (map N (elems a))" if "reordered a b" for a b
    by (rule mset_map_cong) (rule reordered_elems [OF that])
  have L: "rawCandidates c =
     (if isArray P then Inr (map N (elems P))
      else if truthy P \<and> js_typeof P = ''object'' then
        (if js_typeof (optProp P ''keys'') = ''function'' then
           bindE (callIter ''chat.participants.keys'' (optProp P ''keys'')) (\<lambda>ks.
             if ks = [] then
               bindE (callIter ''chat.participants.values'' (optProp P ''values''))
                 (\<lambda>vs. Inr (map N vs))
             else Inr ks)
         else Inr (map N (objectValues P)))
      else if truthy G \<and> isArray (optProp G ''participants'')
        then Inr (map N (elems (optProp G ''participants'')))
      else Inr [])"
    unfolding rawCandidates_unfold [OF c] P_def G_def Let_def m ..
  have R: "rawCandidates c' =
     (if isArray P then Inr (map N (elems P'))
      else if truthy P \<and> js_typeof P = ''object'' then
        (if js_typeof (optProp P ''keys'') = ''function'' then
           bindE (callIter ''chat.participants.keys'' (optProp P' ''keys'')) (\<lambda>ks.
             if ks = [] then
               bindE (callIter ''chat.participants.values'' (optProp P' ''values''))
                 (\<lambda>vs. Inr (map N vs))
             else Inr ks)
         else Inr (map N (objectValues P')))
      else if truthy G \<and> isArray (optProp G ''participants'')
        then Inr (map N (elems (optProp G' ''participants'')))
      else Inr [])"
    unfolding rawCandidates_unfold [OF c'] P'_def [symmetric] G'_def [symmetric] Let_def m
      reordered_isArray [OF rP] reordered_truthy [OF rP] reordered_typeof [OF rP]
      reordered_typeof [OF rK] reordered_truthy [OF rG] reordered_isArray [OF rGP] ..
  have keysCase: "map_sum id mset
       (bindE (callIter ''chat.participants.keys'' (optProp P' ''keys'')) (\<lambda>ks.
             if ks = [] then
               bindE (callIter ''chat.participants.values'' (optProp P' ''values''))
                 (\<lambda>vs. Inr (map N vs))
             else Inr ks))
     = map_sum id mset
       (bindE (callIter ''chat.participants.keys'' (optProp P ''keys'')) (\<lambda>ks.
             if ks = [] then
               bindE (callIter ''chat.participants.values'' (optProp P ''values''))
                 (\<lambda>vs. Inr (map N vs))
             else Inr ks))"
    if kf: "js_typeof (optProp P ''keys'') = ''function''"
  proof -
    from reordered_fun [OF rK kf] obtain r nm ks r' ks'
      where K: "optProp P ''keys'' = JFun r nm ks" "optProp P' ''keys'' = JFun r' nm ks'"
        and ks: "mset ks' = mset ks" by blast
    from ks have e: "ks' = [] \<longleftrightarrow> ks = []" by (metis mset_zero_iff)
    show ?thesis
    proof (cases "ks = []")
      case False
      with e K ks show ?thesis by simp
    next
      case True
      show ?thesis
      proof (cases "js_typeof (optProp P ''values'') = ''function''")
        case vf: True
        from reordered_fun [OF rV vf] obtain q nm2 vs q' vs'
          where V: "optProp P ''values'' = JFun q nm2 vs" "optProp P' ''values'' = JFun q' nm2 vs'"
            and vs: "mset vs' = mset vs" by blast
        from vs have "mset (map N vs') = mset (map N vs)" by (rule mset_map_cong)
        with True e K V show ?thesis by simp
      next
        case False
        then have "js_typeof (optProp P' ''values'') \<noteq> ''function''"
          by (simp add: reordered_typeof [OF rV])
        with False True e K show ?thesis by (simp add: callIter_not_function)
      qed
    qed
  qed
  show ?thesis
    unfolding L R
    using keysCase arrs [OF rP] arrs [OF rGP] reordered_objectValues [OF rP, of N, OF N]
    by simp
qed

lemma collectParticipants_Inr_iff:
  "collectParticipants chat = Inr ids \<longleftrightarrow>
     (\<exists>raw. rawCandidates chat = Inr raw \<and> ids = uniqueSet (filter truthy raw))"
  by (cases "rawCandidates chat") (auto simp: collectParticipants_def)

lemma collectParticipants_Inl_iff:
  "collectParticipants chat = Inl e \<longleftrightarrow> rawCandidates chat = Inl e"
  by (cases "rawCandidates chat") (auto simp: collectParticipants_def)

lemma collectsFrom_raw:
  assumes "rawCandidates chat = Inr raw" "set raw = C"
  shows "collectsFrom chat C"
  unfolding collectsFrom_def collectParticipants_Inr_iff
  using assms by (auto simp: set_uniqueSet distinct_uniqueSet)

lemma collectsFrom_mapE:
  assumes "rawCandidates chat = mapE getParticipantId xs"
  shows "collectsFrom chat (normalizedOf xs)"
proof -
  obtain ys where ys: "mapE getParticipantId xs = Inr ys"
    using mapE_getParticipantId by blast
  then have "set ys = normalizedOf xs"
    unfolding normalizedOf_def by (rule mapE_set)
  with assms ys show ?thesis by (simp add: collectsFrom_raw)
qed

text \<open>
  C6. When two chats hold the same participants in a different order, the collector throws on
  both or on neither, and where it returns, the two results have the same members; what the
  collector returns never holds a member twice.
\<close>

theorem collectParticipants_order_independent:
  assumes "reordered chat chat'"
  shows "(\<forall>e. collectParticipants chat' = Inl e \<longleftrightarrow> collectParticipants chat = Inl e)
       \<and> (\<forall>ids ids'. collectParticipants chat = Inr ids \<and> collectParticipants chat' = Inr ids'
             \<longrightarrow> set ids' = set ids \<and> distinct ids \<and> distinct ids')"
proof -
  note m = reordered_rawCandidates [OF assms]
  have 1: "collectParticipants chat' = Inl e \<longleftrightarrow> collectParticipants chat = Inl e" for e
    using m unfolding collectParticipants_Inl_iff
    by (cases "rawCandidates chat"; cases "rawCandidates chat'") auto
  have 2: "set ids' = set ids \<and> distinct ids \<and> distinct ids'"
    if "collectParticipants chat = Inr ids" "collectParticipants chat' = Inr ids'" for ids ids'
  proof -
    from that obtain raw raw' where raw: "rawCandidates chat = Inr raw"
        "rawCandidates chat' = Inr raw'"
      and ids: "ids = uniqueSet (filter truthy raw)" "ids' = uniqueSet (filter truthy raw')"
      unfolding collectParticipants_Inr_iff by blast
    from m raw have "mset raw' = mset raw" by simp
    then have "set raw' = set raw" by (rule mset_eq_setD)
    with ids show ?thesis by (simp add: set_uniqueSet distinct_uniqueSet)
  qed
  from 1 2 show ?thesis by blast
qed

theorem collectParticipants_order_independent_witness:
  "reordered
     (JObj 1 [(''participants'',
        JArr 2 [JStr ''111@c.us'', JObj 3 [(''id'', JObj 4 [(''_serialized'', JStr ''ABC@lid'')])],
                JStr ''111@c.us''])])
     (JObj 5 [(''participants'',
        JArr 6 [JObj 3 [(''id'', JObj 4 [(''_serialized'', JStr ''ABC@lid'')])],
                JStr ''111@c.us'', JStr ''111@c.us''])])
   \<and> collectParticipants
     (JObj 1 [(''participants'',
        JArr 2 [JStr ''111@c.us'', JObj 3 [(''id'', JObj 4 [(''_serialized'', JStr ''ABC@lid'')])],
                JStr ''111@c.us''])]) = Inr [JStr ''111@c.us'', JStr ''ABC@lid'']
   \<and> collectParticipants
     (JObj 5 [(''participants'',
        JArr 6 [JObj 3 [(''id'', JObj 4 [(''_serialized'', JStr ''ABC@lid'')])],
                JStr ''111@c.us'', JStr ''111@c.us''])]) = Inr [JStr ''ABC@lid'', JStr ''111@c.us'']
   \<and> set [JStr ''ABC@lid'', JStr ''111@c.us''] = set [JStr ''111@c.us'', JStr ''ABC@lid'']"
proof -
  let ?o = "JObj 3 [(''id'', JObj 4 [(''_serialized'', JStr ''ABC@lid'')])]"
  let ?c = "JObj 1 [(''participants'', JArr 2 [JStr ''111@c.us'', ?o, JStr ''111@c.us''])]"
  let ?c' = "JObj 5 [(''participants'', JArr 6 [?o, JStr ''111@c.us'', JStr ''111@c.us''])]"
  have r: "reordered ?c ?c'"
    by (rule reordered.obj) (simp_all add: reordered.arr)
  have a: "collectParticipants ?c = Inr [JStr ''111@c.us'', JStr ''ABC@lid'']"
    by (simp add: collectParticipants_def rawCandidates_def getParticipantId_def
        uniqueSet_def setAdd_def)
  have b: "collectParticipants ?c' = Inr [JStr ''ABC@lid'', JStr ''111@c.us'']"
    by (simp add: collectParticipants_def rawCandidates_def getParticipantId_def
        uniqueSet_def setAdd_def)
  from collectParticipants_order_independent [OF r] a b
  have "set [JStr ''ABC@lid'', JStr ''111@c.us''] = set [JStr ''111@c.us'', JStr ''ABC@lid'']"
    by blast
  with r a b show ?thesis by blast
qed

section \<open>The fallback order of the collector\<close>

lemma getProp_Inr_optProp: "getProp v p = Inr x \<Longrightarrow> optProp v p = x"
  by (simp add: optProp_def)

lemma getProp_Inr_defined: "getProp v p = Inr x \<Longrightarrow> v \<noteq> JUndefined \<and> v \<noteq> JNull"
  by (cases v) simp_all

text \<open>
  The shapes of the participant container. On a chat whose two fields can be read, the
  collector tries the shapes in this order: (1) an array of participants, each element
  normalized; (2) an object with a function \<^verbatim>\<open>keys\<close>, whose keys are taken as they are
  when there are some, and whose \<^verbatim>\<open>values()\<close> are normalized when there are none;
  (3) any other object, its property values normalized; (4) otherwise the array
  \<^verbatim>\<open>groupMetadata.participants\<close>, normalized. From the candidates it keeps the truthy
  ones, each once; with no shape it returns the empty list. With functions that return an
  iterable, as they are here, the only container on which it throws is one of shape (2) whose
  \<^verbatim>\<open>keys()\<close> yields nothing and whose \<^verbatim>\<open>values\<close> is not a function.
\<close>

lemma collectParticipants_shapes:
  assumes P: "getProp chat ''participants'' = Inr P"
    and G: "getProp chat ''groupMetadata'' = Inr G"
  shows
   "(isArray P \<longrightarrow> collectsFrom chat (normalizedOf (elems P)))
  \<and> (\<not> isArray P \<and> truthy P \<and> js_typeof P = ''object''
       \<and> js_typeof (optProp P ''keys'') = ''function'' \<longrightarrow>
        (\<forall>r nm ks. optProp P ''keys'' = JFun r nm ks \<and> ks \<noteq> [] \<longrightarrow> collectsFrom chat (set ks))
      \<and> (\<forall>r nm r' nm' vs. optProp P ''keys'' = JFun r nm [] \<and> optProp P ''values'' = JFun r' nm' vs
            \<longrightarrow> collectsFrom chat (normalizedOf vs)))
  \<and> (\<not> isArray P \<and> truthy P \<and> js_typeof P = ''object''
       \<and> js_typeof (optProp P ''keys'') \<noteq> ''function'' \<longrightarrow>
        collectsFrom chat (normalizedOf (objectValues P)))
  \<and> (\<not> isArray P \<and> \<not> (truthy P \<and> js_typeof P = ''object'')
       \<and> truthy G \<and> isArray (optProp G ''participants'') \<longrightarrow>
        collectsFrom chat (normalizedOf (elems (optProp G ''participants''))))
  \<and> (\<not> isArray P \<and> \<not> (truthy P \<and> js_typeof P = ''object'')
       \<and> \<not> (truthy G \<and> isArray (optProp G ''participants'')) \<longrightarrow>
        collectParticipants chat = Inr [])
  \<and> ((\<exists>e. collectParticipants chat = Inl e) \<longleftrightarrow>
        \<not> isArray P \<and> truthy P \<and> js_typeof P = ''object''
        \<and> (\<exists>r nm. optProp P ''keys'' = JFun r nm [])
        \<and> js_typeof (optProp P ''values'') \<noteq> ''function'')"
proof -
  from P have c: "chat \<noteq> JUndefined" "chat \<noteq> JNull"
    using getProp_Inr_defined by blast+
  from P G have o: "optProp chat ''participants'' = P" "optProp chat ''groupMetadata'' = G"
    by (simp_all add: getProp_Inr_optProp)
  note u = rawCandidates_unfold [OF c, unfolded o Let_def]
  have 1: "collectsFrom chat (normalizedOf (elems P))" if "isArray P"
    by (rule collectsFrom_mapE) (simp add: u that)
  have 2: "collectsFrom chat (set ks)"
    if "\<not> isArray P" "truthy P" "js_typeof P = ''object''"
      "optProp P ''keys'' = JFun r nm ks" "ks \<noteq> []" for r nm ks
    by (rule collectsFrom_raw [where raw = ks]) (simp_all add: u that)
  have 3: "collectsFrom chat (normalizedOf vs)"
    if "\<not> isArray P" "truthy P" "js_typeof P = ''object''"
      "optProp P ''keys'' = JFun r nm []" "optProp P ''values'' = JFun r' nm' vs"
    for r nm r' nm' vs
    by (rule collectsFrom_mapE) (simp add: u that)
  have 4: "collectsFrom chat (normalizedOf (objectValues P))"
    if "\<not> isArray P" "truthy P" "js_typeof P = ''object''"
      "js_typeof (optProp P ''keys'') \<noteq> ''function''"
    by (rule collectsFrom_mapE) (simp add: u that)
  have 5: "collectsFrom chat (normalizedOf (elems (optProp G ''participants'')))"
    if "\<not> isArray P" "\<not> (truthy P \<and> js_typeof P = ''object'')"
      "truthy G" "isArray (optProp G ''participants'')"
    by (rule collectsFrom_mapE) (use that in \<open>auto simp add: u\<close>)
  have 6: "collectParticipants chat = Inr []"
    if "\<not> isArray P" "\<not> (truthy P \<and> js_typeof P = ''object'')"
      "\<not> (truthy G \<and> isArray (optProp G ''participants''))"
    using that by (auto simp add: collectParticipants_Inr_iff u uniqueSet_Nil)
  have 7: "(\<exists>e. collectParticipants chat = Inl e) \<longleftrightarrow>
        \<not> isArray P \<and> truthy P \<and> js_typeof P = ''object''
        \<and> (\<exists>r nm. optProp P ''keys'' = JFun r nm [])
        \<and> js_typeof (optProp P ''values'') \<noteq> ''function''"
  proof (cases "\<not> isArray P \<and> truthy P \<and> js_typeof P = ''object''
       \<and> js_typeof (optProp P ''keys'') = ''function''")
    case False
    then consider "isArray P"
      | "\<not> isArray P" "truthy P" "js_typeof P = ''object''"
        "js_typeof (optProp P ''keys'') \<noteq> ''function''"
      | "\<not> isArray P" "\<not> (truthy P \<and> js_typeof P = ''object'')"
      by blast
    then have "\<exists>raw. rawCandidates chat = Inr raw"
    proof cases
      case 1
      then show ?thesis using mapE_getParticipantId by (simp add: u)
    next
      case 2
      then show ?thesis using mapE_getParticipantId by (simp add: u)
    next
      case 3
      then show ?thesis using mapE_getParticipantId by (auto simp add: u)
    qed
    then have "\<not> (\<exists>e. collectParticipants chat = Inl e)"
      by (auto simp: collectParticipants_Inl_iff)
    moreover from False have "\<not> (\<not> isArray P \<and> truthy P \<and> js_typeof P = ''object''
        \<and> (\<exists>r nm. optProp P ''keys'' = JFun r nm [])
        \<and> js_typeof (optProp P ''values'') \<noteq> ''function'')"
      by auto
    ultimately show ?thesis by blast
  next
    case True
    then obtain r nm ks where K: "optProp P ''keys'' = JFun r nm ks"
      by (auto simp: typeof_function_iff)
    show ?thesis
    proof (cases "ks = []")
      case False
      with True K show ?thesis by (simp add: collectParticipants_Inl_iff u)
    next
      case e: True
      show ?thesis
      proof (cases "js_typeof (optProp P ''values'') = ''function''")
        case False
        with True K e show ?thesis
          by (simp add: collectParticipants_Inl_iff u callIter_not_function)
      next
        case vf: True
        then obtain r' nm' vs where "optProp P ''values'' = JFun r' nm' vs"
          by (auto simp: typeof_function_iff)
        moreover obtain ys where "mapE getParticipantId vs = Inr ys"
          using mapE_getParticipantId by blast
        ultimately show ?thesis using True K e vf
          by (simp add: collectParticipants_Inl_iff u)
      qed
    qed
  qed
  from 1 2 3 4 5 6 7 show ?thesis by blast
qed

lemma collectParticipants_shapes_example:
  "collectsFrom
     (JObj 1 [(''participants'',
        JObj 2 [(''keys'', JFun 3 ''keys'' [JStr ''111@c.us'', JNull, JStr ''111@c.us'']),
                (''values'', JFun 4 ''values'' [JNum 1, JNum 2, JNum 3])])])
     (set [JStr ''111@c.us'', JNull, JStr ''111@c.us''])
   \<and> collectParticipants
     (JObj 1 [(''participants'',
        JObj 2 [(''keys'', JFun 3 ''keys'' [JStr ''111@c.us'', JNull, JStr ''111@c.us'']),
                (''values'', JFun 4 ''values'' [JNum 1, JNum 2, JNum 3])])])
     = Inr [JStr ''111@c.us'']"
proof -
  let ?P = "JObj 2 [(''keys'', JFun 3 ''keys'' [JStr ''111@c.us'', JNull, JStr ''111@c.us'']),
                    (''values'', JFun 4 ''values'' [JNum 1, JNum 2, JNum 3])]"
  let ?c = "JObj 1 [(''participants'', ?P)]"
  have P: "getProp ?c ''participants'' = Inr ?P" by simp
  have G: "getProp ?c ''groupMetadata'' = Inr JUndefined" by simp
  from collectParticipants_shapes [OF P G]
  have "collectsFrom ?c (set [JStr ''111@c.us'', JNull, JStr ''111@c.us''])"
    by (simp add: optProp_def)
  moreover have "collectParticipants ?c = Inr [JStr ''111@c.us'']"
    by (simp add: collectParticipants_def rawCandidates_def uniqueSet_def setAdd_def)
  ultimately show ?thesis by blast
qed

text \<open>
  C4. The collector is to return the empty set, and not to throw, when nothing is
  extractable. Line 158 tests that \<^verbatim>\<open>keys\<close> is a function, but line 162 calls
  \<^verbatim>\<open>values()\<close> without testing it: on a participant container that has a function
  \<^verbatim>\<open>keys\<close> yielding nothing and no \<^verbatim>\<open>values\<close>, nothing is extractable, and the
  collector throws a \<^verbatim>\<open>TypeError\<close> instead of returning the empty list.
\<close>

theorem collectParticipants_keys_without_values:
  "collectParticipants (JObj 1 [(''participants'', JObj 2 [(''keys'', JFun 3 ''keys'' [])])])
     = Inl (JsTypeError ''chat.participants.values is not a function'')
   \<and> collectParticipants (JObj 1 [(''participants'', JObj 2 [(''keys'', JFun 3 ''keys'' [])])])
     \<noteq> Inr []"
  by (simp add: collectParticipants_def rawCandidates_def)

section \<open>Properties of the resolver\<close>

lemma contactPromise_string:
  "contactPromise cl (JStr s) =
     Fulfilled (case getContactById cl s of
                  Inr contact \<Rightarrow> \<lparr>rp_id = Some s, rp_name = contactName contact, rp_ok = True\<rparr>
                | Inl err \<Rightarrow> \<lparr>rp_id = Some s, rp_name = JNull, rp_ok = False\<rparr>)"
  by (simp add: contactPromise_def split: sum.split)

lemma rp_id_contactPromise_string: "rp_id (unsettle (contactPromise cl (JStr s))) = Some s"
  by (simp add: contactPromise_string unsettle_def split: sum.split)

lemma hasId_contactPromise:
  "hasId (unsettle (contactPromise cl i)) \<longleftrightarrow> (\<exists>s. i = JStr s \<and> s \<noteq> [])"
  by (cases i) (simp_all add: hasId_def rp_id_contactPromise_string, simp_all add: contactPromise_def unsettle_def)

lemma resolveContacts_nonempty_strings:
  assumes "\<forall>i\<in>set ids. \<exists>s. i = JStr s \<and> s \<noteq> []"
  shows "resolveContacts cl ids = map (\<lambda>i. unsettle (contactPromise cl i)) ids"
proof -
  have "filter hasId (map (\<lambda>i. unsettle (contactPromise cl i)) ids)
          = map (\<lambda>i. unsettle (contactPromise cl i)) ids"
    using assms by (auto simp: filter_id_conv hasId_contactPromise)
  then show ?thesis by (simp add: resolveContacts_def comp_def)
qed


text \<open>The collector passes on nothing falsy (line 172): in particular the empty string is
  never among the ids that the resolver receives.\<close>

lemma collectParticipants_truthy:
  assumes "collectParticipants chat = Inr ids"
  shows "\<forall>i\<in>set ids. truthy i"
proof -
  from assms obtain raw where "ids = uniqueSet (filter truthy raw)"
    unfolding collectParticipants_Inr_iff by blast
  then show ?thesis by (simp add: set_uniqueSet)
qed

text \<open>On ids that are all non-empty strings, the resolver returns one entry per id.\<close>

lemma resolveContacts_entries:
  assumes "\<forall>i\<in>set ids. \<exists>s. i = JStr s \<and> s \<noteq> []"
  shows "length (resolveContacts cl ids) = length ids
       \<and> map (\<lambda>p. map_option JStr (rp_id p)) (resolveContacts cl ids) = map Some ids
       \<and> (\<forall>k<length ids. \<forall>s err. ids ! k = JStr s \<and> getContactById cl s = Inl err \<longrightarrow>
             resolveContacts cl ids ! k = \<lparr>rp_id = Some s, rp_name = JNull, rp_ok = False\<rparr>)
       \<and> (\<forall>k<length ids. \<forall>s contact. ids ! k = JStr s \<and> getContactById cl s = Inr contact \<longrightarrow>
             resolveContacts cl ids ! k =
               \<lparr>rp_id = Some s, rp_name = contactName contact, rp_ok = True\<rparr>)"
proof -
  note r = resolveContacts_nonempty_strings [OF assms]
  have f1: "length (resolveContacts cl ids) = length ids" by (simp add: r)
  have f2: "map (\<lambda>p. map_option JStr (rp_id p)) (resolveContacts cl ids) = map Some ids"
    unfolding r using assms by (auto simp: rp_id_contactPromise_string)
  have f3: "resolveContacts cl ids ! k = \<lparr>rp_id = Some s, rp_name = JNull, rp_ok = False\<rparr>"
    if "k < length ids" "ids ! k = JStr s" "getContactById cl s = Inl err" for k s err
    using that by (simp add: r contactPromise_string unsettle_def)
  have f4: "resolveContacts cl ids ! k = \<lparr>rp_id = Some s, rp_name = contactName contact, rp_ok = True\<rparr>"
    if "k < length ids" "ids ! k = JStr s" "getContactById cl s = Inr contact" for k s contact
    using that by (simp add: r contactPromise_string unsettle_def)
  from f1 f2 f3 f4 show ?thesis by blast
qed

text \<open>
  C1. The ids that the resolver receives are those the collector returns for a chat. When
  they are all strings, the resolver returns one entry per id (same length), in the order of
  the ids and with each id retained; the entry of an id whose lookup fails is
  \<^verbatim>\<open>{ id, name: null, ok: false }\<close>, and the entry of an id whose lookup succeeds is
  \<^verbatim>\<open>{ id, name, ok: true }\<close>, whatever happens to the other lookups. The ids are also
  pairwise different, the collector's result being a set.
\<close>

theorem resolveContacts_one_per_id:
  assumes "collectParticipants chat = Inr ids"
    and "\<forall>i\<in>set ids. \<exists>s. i = JStr s"
  shows "distinct ids
       \<and> length (resolveContacts cl ids) = length ids
       \<and> map (\<lambda>p. map_option JStr (rp_id p)) (resolveContacts cl ids) = map Some ids
       \<and> (\<forall>k<length ids. \<forall>s err. ids ! k = JStr s \<and> getContactById cl s = Inl err \<longrightarrow>
             resolveContacts cl ids ! k = \<lparr>rp_id = Some s, rp_name = JNull, rp_ok = False\<rparr>)
       \<and> (\<forall>k<length ids. \<forall>s contact. ids ! k = JStr s \<and> getContactById cl s = Inr contact \<longrightarrow>
             resolveContacts cl ids ! k =
               \<lparr>rp_id = Some s, rp_name = contactName contact, rp_ok = True\<rparr>)"
proof -
  have t: "\<forall>i\<in>set ids. truthy i"
    using assms(1) by (rule collectParticipants_truthy)
  have ne: "\<forall>i\<in>set ids. \<exists>s. i = JStr s \<and> s \<noteq> []"
  proof
    fix i assume i: "i \<in> set ids"
    with assms(2) obtain s where s: "i = JStr s" by blast
    from t i have "truthy i" by blast
    with s show "\<exists>s. i = JStr s \<and> s \<noteq> []" by simp
  qed
  from assms(1) obtain raw where "ids = uniqueSet (filter truthy raw)"
    unfolding collectParticipants_Inr_iff by blast
  then have d: "distinct ids" by (simp add: distinct_uniqueSet)
  from d resolveContacts_entries [OF ne, of cl] show ?thesis by (intro conjI) simp_all
qed

theorem resolveContacts_one_per_id_witness:
  "collectParticipants demoChat = Inr [JStr ''111@c.us'', JStr ''ABC@lid'']
   \<and> resolveContacts demoClient [JStr ''111@c.us'', JStr ''ABC@lid''] =
       [\<lparr>rp_id = Some ''111@c.us'', rp_name = JStr ''Ann'', rp_ok = True\<rparr>,
        \<lparr>rp_id = Some ''ABC@lid'', rp_name = JNull, rp_ok = False\<rparr>]
   \<and> length (resolveContacts demoClient [JStr ''111@c.us'', JStr ''ABC@lid'']) = 2"
proof -
  have c: "collectParticipants demoChat = Inr [JStr ''111@c.us'', JStr ''ABC@lid'']"
    by (simp add: demoChat_def collectParticipants_def rawCandidates_def getParticipantId_def
        uniqueSet_def setAdd_def)
  have h: "\<forall>i\<in>set [JStr ''111@c.us'', JStr ''ABC@lid'']. \<exists>s. i = JStr s"
    by simp
  have v: "resolveContacts demoClient [JStr ''111@c.us'', JStr ''ABC@lid''] =
       [\<lparr>rp_id = Some ''111@c.us'', rp_name = JStr ''Ann'', rp_ok = True\<rparr>,
        \<lparr>rp_id = Some ''ABC@lid'', rp_name = JNull, rp_ok = False\<rparr>]"
    by (simp add: resolveContacts_def contactPromise_def unsettle_def hasId_def demoClient_def
        demoGetContactById_def contactName_def optProp_def js_or_def)
  from resolveContacts_one_per_id [OF c h, of demoClient]
  have "length (resolveContacts demoClient [JStr ''111@c.us'', JStr ''ABC@lid'']) = 2"
    by simp
  with c v show ?thesis by (intro conjI)
qed

section \<open>Properties of the classifier\<close>






section \<open>Properties of the orchestrator\<close>


















section \<open>The handler and the server state\<close>

text \<open>
  C9. \<^verbatim>\<open>POST /extract\<close> returns the state it was given: it assigns none of the three
  variables. Of the state it reads \<^verbatim>\<open>isAuthenticated\<close> only, so two states that agree on
  it get the same response. The collector, the resolver, the classifier and the loop are
  functions of their arguments and have no access to the state.
\<close>

theorem post_extract_frame:
  "snd (post_extract cl st selectedGroups) = st
   \<and> (isAuthenticated st' = isAuthenticated st \<longrightarrow>
        fst (post_extract cl st' selectedGroups) = fst (post_extract cl st selectedGroups))"
  by (cases "extractLoop cl
               (if \<not> isArray selectedGroups then [selectedGroups] else elems selectedGroups)
               ([], [])")
     (simp add: post_extract_def)

theorem post_extract_frame_witness:
  "snd (post_extract demoClient
          \<lparr>qrCodeData = JNull, isAuthenticated = True, groupsCache = [demoChat]\<rparr>
          (JStr ''G2''))
     = \<lparr>qrCodeData = JNull, isAuthenticated = True, groupsCache = [demoChat]\<rparr>
   \<and> fst (post_extract demoClient
          \<lparr>qrCodeData = JStr ''qr'', isAuthenticated = True, groupsCache = []\<rparr>
          (JStr ''G2''))
     = fst (post_extract demoClient
          \<lparr>qrCodeData = JNull, isAuthenticated = True, groupsCache = [demoChat]\<rparr>
          (JStr ''G2''))"
  using post_extract_frame [of demoClient
      "\<lparr>qrCodeData = JNull, isAuthenticated = True, groupsCache = [demoChat]\<rparr>"
      "JStr ''G2''"
      "\<lparr>qrCodeData = JStr ''qr'', isAuthenticated = True, groupsCache = []\<rparr>"]
  by simp

section \<open>Properties of the export handler\<close>





lemma formatOf_string:
  "formatOf (JStr s) = Inr (if s = [] then ''csv'' else js_toLowerCase s)"
  by (simp add: formatOf_def js_or_def js_toLowerCase_def lowerChar_def)







lemma exportDispatch_unsupported:
  assumes "f \<noteq> ''csv''" "f \<noteq> ''xlsx''" "f \<noteq> ''json''"
  shows "exportDispatch ex payload f =
     (case ensureDir ex (path_join (dirname ex) ''exports'') of
        None \<Rightarrow> (Send 400 ''Unsupported format'', [EnsureDir (path_join (dirname ex) ''exports'')])
      | Some err \<Rightarrow> (Send 500 ''Export failed'', [EnsureDir (path_join (dirname ex) ''exports'')]))"
  using assms by (simp add: exportDispatch_def Let_def split: option.split)

text \<open>The format is read without a throw exactly when the field is falsy or a string.\<close>

lemma formatOf_Inr_iff:
  "(\<exists>f. formatOf fmt = Inr f) \<longleftrightarrow> \<not> truthy fmt \<or> js_typeof fmt = ''string''"
  by (cases fmt) (simp_all add: formatOf_def js_or_def)

text \<open>A format that is truthy and not a string (a number, \<^verbatim>\<open>true\<close>, an array, an object)
  has no \<^verbatim>\<open>toLowerCase\<close>: line 257 throws, outside the \<^verbatim>\<open>try\<close>, so that with a valid
  payload the handler sends no response and makes no file-system call.\<close>

lemma post_export_format_not_string:
  assumes "isAuthenticated st"
    and "truthy p0" "decodePayload ex p0 = Inr (JArr r xs)" "xs \<noteq> []"
    and "truthy fmt" "js_typeof fmt \<noteq> ''string''"
  shows "post_export ex st p0 fmt =
     ((Unhandled (JsTypeError ''(req.body.format || csv).toLowerCase is not a function''), []), st)"
proof -
  from assms(5,6) have
    "formatOf fmt = Inl (JsTypeError ''(req.body.format || csv).toLowerCase is not a function'')"
    by (cases fmt) (simp_all add: formatOf_def js_or_def)
  with assms(1-4) show ?thesis by (simp add: post_export_def)
qed

text \<open>
  C5, as amended. For an authenticated request: a payload that is not a non-empty array
  (falsy, a string that does not parse, or a value that is no array or an empty one) is
  answered with status 400 whatever the format is, and no file-system call is made. With a
  valid payload and a format field that is falsy or a string, and that selects none of
  \<^verbatim>\<open>csv\<close>, \<^verbatim>\<open>xlsx\<close> and \<^verbatim>\<open>json\<close>, the handler first ensures the export
  directory and writes no file: when that call succeeds the answer is
  \<^verbatim>\<open>400 Unsupported format\<close>, and when it throws the answer is \<^verbatim>\<open>500 Export failed\<close>.
\<close>

theorem post_export_validation:
  assumes "isAuthenticated st"
  shows
   "(\<not> (truthy p0 \<and> (\<exists>r xs. decodePayload ex p0 = Inr (JArr r xs) \<and> xs \<noteq> [])) \<longrightarrow>
       (\<exists>msg. \<forall>fmt. post_export ex st p0 fmt = ((Send 400 msg, []), st)))
    \<and> (truthy p0 \<and> decodePayload ex p0 = Inr (JArr r xs) \<and> xs \<noteq> []
         \<and> (\<not> truthy fmt \<or> js_typeof fmt = ''string'')
         \<and> formatOf fmt \<noteq> Inr ''csv'' \<and> formatOf fmt \<noteq> Inr ''xlsx''
         \<and> formatOf fmt \<noteq> Inr ''json'' \<longrightarrow>
        (ensureDir ex (path_join (dirname ex) ''exports'') = None \<longrightarrow>
           post_export ex st p0 fmt =
             ((Send 400 ''Unsupported format'', [EnsureDir (path_join (dirname ex) ''exports'')]),
              st))
      \<and> (\<forall>err. ensureDir ex (path_join (dirname ex) ''exports'') = Some err \<longrightarrow>
           post_export ex st p0 fmt =
             ((Send 500 ''Export failed'', [EnsureDir (path_join (dirname ex) ''exports'')]),
              st)))"
proof -
  have a: "\<exists>msg. \<forall>fmt. post_export ex st p0 fmt = ((Send 400 msg, []), st)"
    if inv: "\<not> (truthy p0 \<and> (\<exists>r xs. decodePayload ex p0 = Inr (JArr r xs) \<and> xs \<noteq> []))"
  proof (cases "truthy p0")
    case False
    with assms show ?thesis by (simp add: post_export_def)
  next
    case True
    show ?thesis
    proof (cases "decodePayload ex p0")
      case (Inl e)
      with assms True show ?thesis by (simp add: post_export_def)
    next
      case (Inr payload)
      with inv True have "\<not> isArray payload \<or> length (elems payload) = 0"
        by (cases payload) auto
      with assms True Inr show ?thesis by (simp add: post_export_def)
    qed
  qed
  have b: "post_export ex st p0 fmt =
     (case ensureDir ex (path_join (dirname ex) ''exports'') of
        None \<Rightarrow> (Send 400 ''Unsupported format'', [EnsureDir (path_join (dirname ex) ''exports'')])
      | Some err \<Rightarrow> (Send 500 ''Export failed'', [EnsureDir (path_join (dirname ex) ''exports'')]),
      st)"
    if v: "truthy p0" "decodePayload ex p0 = Inr (JArr r xs)" "xs \<noteq> []"
      and s: "\<not> truthy fmt \<or> js_typeof fmt = ''string''"
      and u: "formatOf fmt \<noteq> Inr ''csv''" "formatOf fmt \<noteq> Inr ''xlsx''"
        "formatOf fmt \<noteq> Inr ''json''"
  proof -
    from s obtain f where f: "formatOf fmt = Inr f"
      using formatOf_Inr_iff [of fmt] by blast
    with u have "f \<noteq> ''csv''" "f \<noteq> ''xlsx''" "f \<noteq> ''json''" by simp_all
    with v f assms show ?thesis by (simp add: post_export_def exportDispatch_unsupported)
  qed
  have c: "ensureDir ex (path_join (dirname ex) ''exports'') = None \<longrightarrow>
           post_export ex st p0 fmt =
             ((Send 400 ''Unsupported format'', [EnsureDir (path_join (dirname ex) ''exports'')]),
              st)"
    if "truthy p0" "decodePayload ex p0 = Inr (JArr r xs)" "xs \<noteq> []"
      "\<not> truthy fmt \<or> js_typeof fmt = ''string''"
      "formatOf fmt \<noteq> Inr ''csv''" "formatOf fmt \<noteq> Inr ''xlsx''" "formatOf fmt \<noteq> Inr ''json''"
    using b [OF that] by simp
  have d: "\<forall>err. ensureDir ex (path_join (dirname ex) ''exports'') = Some err \<longrightarrow>
           post_export ex st p0 fmt =
             ((Send 500 ''Export failed'', [EnsureDir (path_join (dirname ex) ''exports'')]),
              st)"
    if "truthy p0" "decodePayload ex p0 = Inr (JArr r xs)" "xs \<noteq> []"
      "\<not> truthy fmt \<or> js_typeof fmt = ''string''"
      "formatOf fmt \<noteq> Inr ''csv''" "formatOf fmt \<noteq> Inr ''xlsx''" "formatOf fmt \<noteq> Inr ''json''"
    using b [OF that] by simp
  show ?thesis
  proof (intro conjI impI)
    assume "\<not> (truthy p0 \<and> (\<exists>r xs. decodePayload ex p0 = Inr (JArr r xs) \<and> xs \<noteq> []))"
    then show "\<exists>msg. \<forall>fmt. post_export ex st p0 fmt = ((Send 400 msg, []), st)" by (rule a)
  next
    assume h: "truthy p0 \<and> decodePayload ex p0 = Inr (JArr r xs) \<and> xs \<noteq> []
         \<and> (\<not> truthy fmt \<or> js_typeof fmt = ''string'')
         \<and> formatOf fmt \<noteq> Inr ''csv'' \<and> formatOf fmt \<noteq> Inr ''xlsx''
         \<and> formatOf fmt \<noteq> Inr ''json''"
      and e: "ensureDir ex (path_join (dirname ex) ''exports'') = None"
    from h have "ensureDir ex (path_join (dirname ex) ''exports'') = None \<longrightarrow>
           post_export ex st p0 fmt =
             ((Send 400 ''Unsupported format'', [EnsureDir (path_join (dirname ex) ''exports'')]),
              st)"
      by (intro c) simp_all
    with e show "post_export ex st p0 fmt =
             ((Send 400 ''Unsupported format'', [EnsureDir (path_join (dirname ex) ''exports'')]),
              st)" by simp
  next
    assume h: "truthy p0 \<and> decodePayload ex p0 = Inr (JArr r xs) \<and> xs \<noteq> []
         \<and> (\<not> truthy fmt \<or> js_typeof fmt = ''string'')
         \<and> formatOf fmt \<noteq> Inr ''csv'' \<and> formatOf fmt \<noteq> Inr ''xlsx''
         \<and> formatOf fmt \<noteq> Inr ''json''"
    then show "\<forall>err. ensureDir ex (path_join (dirname ex) ''exports'') = Some err \<longrightarrow>
           post_export ex st p0 fmt =
             ((Send 500 ''Export failed'', [EnsureDir (path_join (dirname ex) ''exports'')]),
              st)"
      by (intro d) simp_all
  qed
qed

theorem post_export_validation_witness:
  "(\<exists>msg. post_export demoExporter demoState (JArr 0 []) (JStr ''csv'')
            = ((Send 400 msg, []), demoState))
   \<and> post_export demoExporter demoState demoPayload (JStr ''xml'') =
       ((Send 400 ''Unsupported format'', [EnsureDir ''/app/exports'']), demoState)"
proof -
  have au: "isAuthenticated demoState" by (simp add: demoState_def)
  note t = post_export_validation [OF au, of _ demoExporter]
  have i: "\<not> (truthy (JArr 0 []) \<and>
       (\<exists>r xs. decodePayload demoExporter (JArr 0 []) = Inr (JArr r xs) \<and> xs \<noteq> []))"
    by (simp add: decodePayload_def)
  from t [of "JArr 0 []", THEN conjunct1] i
  have f1: "\<exists>msg. post_export demoExporter demoState (JArr 0 []) (JStr ''csv'')
            = ((Send 400 msg, []), demoState)"
    by blast
  have v: "truthy demoPayload \<and> decodePayload demoExporter demoPayload =
            Inr (JArr 20 [JObj 21 [(''groupId'', JStr ''G2''), (''groupName'', JStr ''Team''),
                       (''name'', JStr ''Ann''), (''number'', JStr ''111''),
                       (''id'', JStr ''111@c.us''), (''type'', JStr ''number'')]])
          \<and> js_typeof (JStr ''xml'') = ''string''
          \<and> formatOf (JStr ''xml'') = Inr ''xml''
          \<and> ensureDir demoExporter (path_join (dirname demoExporter) ''exports'') = None
          \<and> path_join (dirname demoExporter) ''exports'' = ''/app/exports''
          \<and> ensureDir demoExporter ''/app/exports'' = None"
    by (simp add: demoPayload_def decodePayload_def formatOf_string js_toLowerCase_def
        lowerChar_def demoExporter_def demoEnsureDir_def path_join_def)
  from t [of demoPayload 20
        "[JObj 21 [(''groupId'', JStr ''G2''), (''groupName'', JStr ''Team''),
                       (''name'', JStr ''Ann''), (''number'', JStr ''111''),
                       (''id'', JStr ''111@c.us''), (''type'', JStr ''number'')]]"
        "JStr ''xml''", THEN conjunct2] v
  have f2: "post_export demoExporter demoState demoPayload (JStr ''xml'') =
       ((Send 400 ''Unsupported format'', [EnsureDir ''/app/exports'']), demoState)"
    by simp
  from f1 f2 show ?thesis by (rule conjI)
qed

text \<open>
  C5 as the specification states it fails on a valid payload with the format \<^verbatim>\<open>xml\<close>:
  the directory call is made before the format is looked at, and when it throws the answer
  is \<^verbatim>\<open>500 Export failed\<close>, not the unsupported-format error.
\<close>

theorem post_export_unsupported_counterexample:
  "post_export demoExporter demoState demoPayload (JStr ''xml'') =
       ((Send 400 ''Unsupported format'', [EnsureDir ''/app/exports'']), demoState)
   \<and> snd (fst (post_export demoExporter demoState demoPayload (JStr ''xml''))) \<noteq> []
   \<and> post_export brokenDirExporter demoState demoPayload (JStr ''xml'') =
       ((Send 500 ''Export failed'', [EnsureDir ''/app/exports'']), demoState)"
  by (simp add: post_export_def demoExporter_def brokenDirExporter_def demoState_def
      demoPayload_def decodePayload_def formatOf_string js_toLowerCase_def lowerChar_def
      exportDispatch_def path_join_def demoEnsureDir_def brokenEnsureDir_def Let_def)

end
